theory Spec2Isabelle
  imports Main "HOL-Library.Word"
begin

unbundle bit_operations_syntax

section \<open>Encrypted attachments (package \<open>attachment\<close>)\<close>

text \<open>
  A shallow embedding of \<^verbatim>\<open>crypto/attachment/attachments.go\<close>: the encrypted-file
  descriptor, its creation, \<^verbatim>\<open>decodeKeys\<close>, \<^verbatim>\<open>Encrypt\<close>, \<^verbatim>\<open>checkHash\<close>,
  \<^verbatim>\<open>Decrypt\<close>, \<^verbatim>\<open>xorA256CTR\<close> and \<^verbatim>\<open>genA256CTR\<close>.

  The package calls five functions of the Go standard library. They are embedded first,
  from their standards: unpadded base64 (RFC 4648, \<^verbatim>\<open>encoding/base64\<close>), SHA-256
  (FIPS 180-4, \<^verbatim>\<open>crypto/sha256\<close>), AES-256 (FIPS 197, \<^verbatim>\<open>crypto/aes\<close>), counter mode
  (\<^verbatim>\<open>crypto/cipher\<close>) and the random source (\<^verbatim>\<open>crypto/rand\<close>). Published test vectors
  are checked below by evaluation.

  Go strings are byte sequences, as \<^typ>\<open>string\<close> is; a \<^verbatim>\<open>byte\<close> is an 8-bit word.
\<close>

type_synonym byte = "8 word"
type_synonym u32 = "32 word"

subsection \<open>\<^verbatim>\<open>encoding/base64\<close>: the two unpadded encodings\<close>

text \<open>
  \<^verbatim>\<open>RawStdEncoding\<close> and \<^verbatim>\<open>RawURLEncoding\<close> differ in their alphabet only; both are
  without padding and not strict.
\<close>

datatype Encoding = RawStdEncoding | RawURLEncoding

fun encode :: "Encoding \<Rightarrow> string" where
  "encode RawStdEncoding = ''ABCDEFGHIJKLMNOPQRSTUVWXYZabcdefghijklmnopqrstuvwxyz0123456789+/''"
| "encode RawURLEncoding = ''ABCDEFGHIJKLMNOPQRSTUVWXYZabcdefghijklmnopqrstuvwxyz0123456789-_''"

text \<open>\<^verbatim>\<open>EncodedLen\<close> without padding: \<^verbatim>\<open>n/3*4 + (n%3*8+5)/6\<close>.\<close>

definition EncodedLen :: "nat \<Rightarrow> nat" where
  "EncodedLen n = n div 3 * 4 + (n mod 3 * 8 + 5) div 6"

text \<open>\<^verbatim>\<open>val := uint(src[0])<<16 | uint(src[1])<<8 | uint(src[2])\<close>\<close>

definition val3 :: "byte \<Rightarrow> byte \<Rightarrow> byte \<Rightarrow> u32" where
  "val3 b0 b1 b2 = push_bit 16 (ucast b0) OR push_bit 8 (ucast b1) OR ucast b2"

text \<open>\<^verbatim>\<open>enc.encode[val>>k&0x3F]\<close>\<close>

definition sextet :: "Encoding \<Rightarrow> u32 \<Rightarrow> nat \<Rightarrow> char" where
  "sextet enc val k = encode enc ! unat (drop_bit k val AND 0x3F)"

text \<open>
  \<^verbatim>\<open>EncodeToString\<close>: four characters for every three bytes, then two characters for a
  last single byte or three for a last pair, and no padding character.
\<close>

fun EncodeToString :: "Encoding \<Rightarrow> byte list \<Rightarrow> string" where
  "EncodeToString enc (b0 # b1 # b2 # rest) =
     sextet enc (val3 b0 b1 b2) 18 # sextet enc (val3 b0 b1 b2) 12 #
     sextet enc (val3 b0 b1 b2) 6 # sextet enc (val3 b0 b1 b2) 0 # EncodeToString enc rest"
| "EncodeToString enc [b0, b1] =
     [sextet enc (val3 b0 b1 0) 18, sextet enc (val3 b0 b1 0) 12, sextet enc (val3 b0 b1 0) 6]"
| "EncodeToString enc [b0] = [sextet enc (val3 b0 0 0) 18, sextet enc (val3 b0 0 0) 12]"
| "EncodeToString enc [] = []"

fun index_of :: "'a \<Rightarrow> 'a list \<Rightarrow> nat \<Rightarrow> nat option" where
  "index_of x [] i = None"
| "index_of x (y # ys) i = (if x = y then Some i else index_of x ys (Suc i))"

text \<open>\<^verbatim>\<open>enc.decodeMap[c]\<close>: the position of \<open>c\<close> in the alphabet, \<open>0xFF\<close> for any other byte.\<close>

definition decodeMap :: "Encoding \<Rightarrow> char \<Rightarrow> byte" where
  "decodeMap enc c = (case index_of c (encode enc) 0 of None \<Rightarrow> 0xFF | Some i \<Rightarrow> word_of_nat i)"

text \<open>
  \<^verbatim>\<open>val := uint(dbuf[0])<<18 | uint(dbuf[1])<<12 | uint(dbuf[2])<<6 | uint(dbuf[3])\<close>
\<close>

definition val4 :: "byte list \<Rightarrow> u32" where
  "val4 dbuf = push_bit 18 (ucast (dbuf ! 0)) OR push_bit 12 (ucast (dbuf ! 1))
               OR push_bit 6 (ucast (dbuf ! 2)) OR ucast (dbuf ! 3)"

text \<open>
  The end of \<^verbatim>\<open>decodeQuantum\<close>: \<open>dlen\<close> collected sextets (the rest of \<open>dbuf\<close> is zero)
  give \<open>dlen - 1\<close> bytes. Not strict: the unused low bits of a short quantum are dropped
  without a check.
\<close>

definition quantum :: "byte list \<Rightarrow> byte list" where
  "quantum dbuf =
     take (length dbuf - 1)
       [ucast (drop_bit 16 (val4 (dbuf @ replicate (4 - length dbuf) 0))),
        ucast (drop_bit 8 (val4 (dbuf @ replicate (4 - length dbuf) 0))),
        ucast (val4 (dbuf @ replicate (4 - length dbuf) 0))]"

text \<open>
  The decoding loop over the source, with the sextets collected so far in \<open>dbuf\<close>. It
  returns the bytes written and whether a \<^verbatim>\<open>CorruptInputError\<close> was met. As
  \<^verbatim>\<open>decodeQuantum\<close> does, it skips \<^verbatim>\<open>'\r'\<close> and \<^verbatim>\<open>'\n'\<close>, fails on any other byte outside
  the alphabet (without padding, \<^verbatim>\<open>'='\<close> is one) and on a last quantum of a single
  character, and keeps what earlier quanta wrote. The 8- and 4-character fast paths of
  \<^verbatim>\<open>Decode\<close> give the same bytes and are not modelled apart.
\<close>

fun decodeQuanta :: "Encoding \<Rightarrow> string \<Rightarrow> byte list \<Rightarrow> byte list \<times> bool" where
  "decodeQuanta enc [] dbuf = (if length dbuf = 1 then ([], True) else (quantum dbuf, False))"
| "decodeQuanta enc (c # cs) dbuf =
     (if decodeMap enc c \<noteq> 0xFF then
        (if length dbuf = 3
         then (case decodeQuanta enc cs [] of
                 (out, err) \<Rightarrow> (quantum (dbuf @ [decodeMap enc c]) @ out, err))
         else decodeQuanta enc cs (dbuf @ [decodeMap enc c]))
      else if c = CHR 0x0A \<or> c = CHR 0x0D then decodeQuanta enc cs dbuf
      else ([], True))"

text \<open>
  \<^verbatim>\<open>Decode(dst, src)\<close> returns the new contents of \<open>dst\<close>, the number of bytes written
  and whether it failed; \<open>None\<close> is the run-time panic (index out of range) of a \<open>dst\<close>
  too short for the bytes to write. The fast paths may clear up to two bytes of \<open>dst\<close>
  after the written ones; every destination in this package is a fresh zero array, on
  which that is no change.
\<close>

definition Decode :: "Encoding \<Rightarrow> byte list \<Rightarrow> string \<Rightarrow> (byte list \<times> nat \<times> bool) option" where
  "Decode enc dst src =
     (case decodeQuanta enc src [] of
        (out, err) \<Rightarrow>
          if length dst < length out then None
          else Some (out @ drop (length out) dst, length out, err))"

subsection \<open>\<^verbatim>\<open>crypto/sha256\<close>\<close>

definition be32 :: "byte \<Rightarrow> byte \<Rightarrow> byte \<Rightarrow> byte \<Rightarrow> u32" where
  "be32 a b c d = word_rcat [a, b, c, d]"

fun be_words :: "byte list \<Rightarrow> u32 list" where
  "be_words (a # b # c # d # rest) = be32 a b c d # be_words rest"
| "be_words _ = []"

definition u32_bytes :: "u32 \<Rightarrow> byte list" where
  "u32_bytes w = [ucast (drop_bit 24 w), ucast (drop_bit 16 w), ucast (drop_bit 8 w), ucast w]"

definition Ch :: "u32 \<Rightarrow> u32 \<Rightarrow> u32 \<Rightarrow> u32" where
  "Ch x y z = (x AND y) XOR (NOT x AND z)"

definition Maj :: "u32 \<Rightarrow> u32 \<Rightarrow> u32 \<Rightarrow> u32" where
  "Maj x y z = (x AND y) XOR (x AND z) XOR (y AND z)"

definition bsig0 :: "u32 \<Rightarrow> u32" where
  "bsig0 x = word_rotr 2 x XOR word_rotr 13 x XOR word_rotr 22 x"

definition bsig1 :: "u32 \<Rightarrow> u32" where
  "bsig1 x = word_rotr 6 x XOR word_rotr 11 x XOR word_rotr 25 x"

definition ssig0 :: "u32 \<Rightarrow> u32" where
  "ssig0 x = word_rotr 7 x XOR word_rotr 18 x XOR drop_bit 3 x"

definition ssig1 :: "u32 \<Rightarrow> u32" where
  "ssig1 x = word_rotr 17 x XOR word_rotr 19 x XOR drop_bit 10 x"

definition sha256_K :: "u32 list" where
  "sha256_K = [
    0x428A2F98, 0x71374491, 0xB5C0FBCF, 0xE9B5DBA5, 0x3956C25B, 0x59F111F1, 0x923F82A4, 0xAB1C5ED5,
    0xD807AA98, 0x12835B01, 0x243185BE, 0x550C7DC3, 0x72BE5D74, 0x80DEB1FE, 0x9BDC06A7, 0xC19BF174,
    0xE49B69C1, 0xEFBE4786, 0x0FC19DC6, 0x240CA1CC, 0x2DE92C6F, 0x4A7484AA, 0x5CB0A9DC, 0x76F988DA,
    0x983E5152, 0xA831C66D, 0xB00327C8, 0xBF597FC7, 0xC6E00BF3, 0xD5A79147, 0x06CA6351, 0x14292967,
    0x27B70A85, 0x2E1B2138, 0x4D2C6DFC, 0x53380D13, 0x650A7354, 0x766A0ABB, 0x81C2C92E, 0x92722C85,
    0xA2BFE8A1, 0xA81A664B, 0xC24B8B70, 0xC76C51A3, 0xD192E819, 0xD6990624, 0xF40E3585, 0x106AA070,
    0x19A4C116, 0x1E376C08, 0x2748774C, 0x34B0BCB5, 0x391C0CB3, 0x4ED8AA4A, 0x5B9CCA4F, 0x682E6FF3,
    0x748F82EE, 0x78A5636F, 0x84C87814, 0x8CC70208, 0x90BEFFFA, 0xA4506CEB, 0xBEF9A3F7, 0xC67178F2]"

definition sha256_init :: "u32 list" where
  "sha256_init = [0x6A09E667, 0xBB67AE85, 0x3C6EF372, 0xA54FF53A,
                  0x510E527F, 0x9B05688C, 0x1F83D9AB, 0x5BE0CD19]"

text \<open>
  The message schedule after the first sixteen words: \<open>win\<close> holds the last sixteen,
  oldest first.
\<close>

fun schedule :: "nat \<Rightarrow> u32 list \<Rightarrow> u32 list" where
  "schedule 0 win = []"
| "schedule (Suc n) win =
     (let w = ssig1 (win ! 14) + win ! 9 + ssig0 (win ! 1) + win ! 0
      in w # schedule n (tl win @ [w]))"

fun rounds :: "u32 list \<Rightarrow> u32 list \<Rightarrow> u32 list \<Rightarrow> u32 list" where
  "rounds (k # ks) (w # ws) [a, b, c, d, e, f, g, h] =
     (let t1 = h + bsig1 e + Ch e f g + k + w;
          t2 = bsig0 a + Maj a b c
      in rounds ks ws [t1 + t2, a, b, c, d + t1, e, f, g])"
| "rounds _ _ st = st"

definition block :: "u32 list \<Rightarrow> byte list \<Rightarrow> u32 list" where
  "block hs p = map2 (+) hs (rounds sha256_K (be_words p @ schedule 48 (be_words p)) hs)"

text \<open>Padding: \<open>0x80\<close>, zeros up to 56 modulo 64, then the bit length on 64 bits.\<close>

definition pad :: "byte list \<Rightarrow> byte list" where
  "pad m = m @ [0x80] @ replicate ((119 - length m mod 64) mod 64) 0
             @ map (\<lambda>i. ucast (drop_bit (56 - 8 * i) (word_of_nat (8 * length m) :: 64 word)))
                 [0..<8]"

fun blocks :: "nat \<Rightarrow> byte list \<Rightarrow> u32 list \<Rightarrow> u32 list" where
  "blocks 0 m hs = hs"
| "blocks (Suc n) m hs = blocks n (drop 64 m) (block hs (take 64 m))"

definition Sum256 :: "byte list \<Rightarrow> byte list" where
  "Sum256 m = concat (map u32_bytes (blocks (length (pad m) div 64) (pad m) sha256_init))"

subsection \<open>\<^verbatim>\<open>crypto/aes\<close>: AES-256\<close>

definition sbox_tab :: "byte list" where
  "sbox_tab = [
    0x63, 0x7c, 0x77, 0x7b, 0xf2, 0x6b, 0x6f, 0xc5, 0x30, 0x01, 0x67, 0x2b, 0xfe, 0xd7, 0xab, 0x76,
    0xca, 0x82, 0xc9, 0x7d, 0xfa, 0x59, 0x47, 0xf0, 0xad, 0xd4, 0xa2, 0xaf, 0x9c, 0xa4, 0x72, 0xc0,
    0xb7, 0xfd, 0x93, 0x26, 0x36, 0x3f, 0xf7, 0xcc, 0x34, 0xa5, 0xe5, 0xf1, 0x71, 0xd8, 0x31, 0x15,
    0x04, 0xc7, 0x23, 0xc3, 0x18, 0x96, 0x05, 0x9a, 0x07, 0x12, 0x80, 0xe2, 0xeb, 0x27, 0xb2, 0x75,
    0x09, 0x83, 0x2c, 0x1a, 0x1b, 0x6e, 0x5a, 0xa0, 0x52, 0x3b, 0xd6, 0xb3, 0x29, 0xe3, 0x2f, 0x84,
    0x53, 0xd1, 0x00, 0xed, 0x20, 0xfc, 0xb1, 0x5b, 0x6a, 0xcb, 0xbe, 0x39, 0x4a, 0x4c, 0x58, 0xcf,
    0xd0, 0xef, 0xaa, 0xfb, 0x43, 0x4d, 0x33, 0x85, 0x45, 0xf9, 0x02, 0x7f, 0x50, 0x3c, 0x9f, 0xa8,
    0x51, 0xa3, 0x40, 0x8f, 0x92, 0x9d, 0x38, 0xf5, 0xbc, 0xb6, 0xda, 0x21, 0x10, 0xff, 0xf3, 0xd2,
    0xcd, 0x0c, 0x13, 0xec, 0x5f, 0x97, 0x44, 0x17, 0xc4, 0xa7, 0x7e, 0x3d, 0x64, 0x5d, 0x19, 0x73,
    0x60, 0x81, 0x4f, 0xdc, 0x22, 0x2a, 0x90, 0x88, 0x46, 0xee, 0xb8, 0x14, 0xde, 0x5e, 0x0b, 0xdb,
    0xe0, 0x32, 0x3a, 0x0a, 0x49, 0x06, 0x24, 0x5c, 0xc2, 0xd3, 0xac, 0x62, 0x91, 0x95, 0xe4, 0x79,
    0xe7, 0xc8, 0x37, 0x6d, 0x8d, 0xd5, 0x4e, 0xa9, 0x6c, 0x56, 0xf4, 0xea, 0x65, 0x7a, 0xae, 0x08,
    0xba, 0x78, 0x25, 0x2e, 0x1c, 0xa6, 0xb4, 0xc6, 0xe8, 0xdd, 0x74, 0x1f, 0x4b, 0xbd, 0x8b, 0x8a,
    0x70, 0x3e, 0xb5, 0x66, 0x48, 0x03, 0xf6, 0x0e, 0x61, 0x35, 0x57, 0xb9, 0x86, 0xc1, 0x1d, 0x9e,
    0xe1, 0xf8, 0x98, 0x11, 0x69, 0xd9, 0x8e, 0x94, 0x9b, 0x1e, 0x87, 0xe9, 0xce, 0x55, 0x28, 0xdf,
    0x8c, 0xa1, 0x89, 0x0d, 0xbf, 0xe6, 0x42, 0x68, 0x41, 0x99, 0x2d, 0x0f, 0xb0, 0x54, 0xbb, 0x16]"

definition sbox :: "byte \<Rightarrow> byte" where
  "sbox b = sbox_tab ! unat b"

text \<open>Multiplication by \<open>x\<close> in the field of 256 elements, reduced by \<open>0x11b\<close>.\<close>

definition xtime :: "byte \<Rightarrow> byte" where
  "xtime b = (if bit b 7 then 2 * b XOR 0x1b else 2 * b)"

definition xorBytes :: "byte list \<Rightarrow> byte list \<Rightarrow> byte list" where
  "xorBytes xs ys = map2 (XOR) xs ys"

text \<open>The key schedule works on words of four bytes.\<close>

definition SubWord :: "byte list \<Rightarrow> byte list" where
  "SubWord w = map sbox w"

definition RotWord :: "byte list \<Rightarrow> byte list" where
  "RotWord w = rotate1 w"

definition rcon :: "byte list" where
  "rcon = [0x01, 0x02, 0x04, 0x08, 0x10, 0x20, 0x40]"

fun words4 :: "byte list \<Rightarrow> byte list list" where
  "words4 (a # b # c # d # rest) = [a, b, c, d] # words4 rest"
| "words4 _ = []"

fun xor_chain :: "byte list \<Rightarrow> byte list list \<Rightarrow> byte list list" where
  "xor_chain t [] = []"
| "xor_chain t (w # ws) = xorBytes w t # xor_chain (xorBytes w t) ws"

text \<open>
  With a key of eight words, the next eight words of the schedule come from the last
  eight: word \<open>i\<close> is word \<open>i - 8\<close> xor \<open>t\<close>, where \<open>t\<close> is \<open>SubWord (RotWord w)\<close>
  xor the round constant for the first word of a group, \<open>SubWord w\<close> for the fifth and
  \<open>w\<close> otherwise, \<open>w\<close> being word \<open>i - 1\<close>.
\<close>

definition expandGroup :: "byte \<Rightarrow> byte list list \<Rightarrow> byte list list" where
  "expandGroup rc g =
     (let a = xor_chain (xorBytes (SubWord (RotWord (g ! 7))) [rc, 0, 0, 0]) (take 4 g)
      in a @ xor_chain (SubWord (a ! 3)) (drop 4 g))"

fun expand :: "byte list \<Rightarrow> byte list list \<Rightarrow> byte list list" where
  "expand [] g = []"
| "expand (rc # rcs) g = expandGroup rc g @ expand rcs (expandGroup rc g)"

fun roundKeys :: "byte list list \<Rightarrow> byte list list" where
  "roundKeys (a # b # c # d # rest) = (a @ b @ c @ d) # roundKeys rest"
| "roundKeys _ = []"

text \<open>\<^verbatim>\<open>aes.NewCipher\<close> on a 32-byte key: the fifteen round keys of AES-256.\<close>

definition NewCipher :: "byte list \<Rightarrow> byte list list" where
  "NewCipher k = take 15 (roundKeys (words4 k @ expand rcon (words4 k)))"

definition AddRoundKey :: "byte list \<Rightarrow> byte list \<Rightarrow> byte list" where
  "AddRoundKey st rk = xorBytes st rk"

definition SubBytes :: "byte list \<Rightarrow> byte list" where
  "SubBytes st = map sbox st"

text \<open>The state is kept in input order, column after column.\<close>

definition ShiftRows :: "byte list \<Rightarrow> byte list" where
  "ShiftRows st = map (\<lambda>i. st ! i) [0, 5, 10, 15, 4, 9, 14, 3, 8, 13, 2, 7, 12, 1, 6, 11]"

fun MixColumns :: "byte list \<Rightarrow> byte list" where
  "MixColumns (a0 # a1 # a2 # a3 # rest) =
     [xtime a0 XOR (xtime a1 XOR a1) XOR a2 XOR a3,
      a0 XOR xtime a1 XOR (xtime a2 XOR a2) XOR a3,
      a0 XOR a1 XOR xtime a2 XOR (xtime a3 XOR a3),
      (xtime a0 XOR a0) XOR a1 XOR a2 XOR xtime a3] @ MixColumns rest"
| "MixColumns _ = []"

fun aes_rounds :: "byte list list \<Rightarrow> byte list \<Rightarrow> byte list" where
  "aes_rounds [] st = st"
| "aes_rounds [rk] st = AddRoundKey (ShiftRows (SubBytes st)) rk"
| "aes_rounds (rk # rks) st =
     aes_rounds rks (AddRoundKey (MixColumns (ShiftRows (SubBytes st))) rk)"

text \<open>\<^verbatim>\<open>Block.Encrypt\<close> of one 16-byte block.\<close>

definition encryptBlock :: "byte list list \<Rightarrow> byte list \<Rightarrow> byte list" where
  "encryptBlock rks blk = aes_rounds (tl rks) (AddRoundKey blk (hd rks))"

subsection \<open>\<^verbatim>\<open>crypto/cipher\<close>: counter mode\<close>

text \<open>
  The counter is a big-endian number on the whole block:
  \<^verbatim>\<open>for i := len(ctr)-1; i >= 0; i-- { ctr[i]++; if ctr[i] != 0 { break } }\<close>.
  \<open>incr\<close> works on the reversed counter.
\<close>

fun incr :: "byte list \<Rightarrow> byte list" where
  "incr [] = []"
| "incr (b # bs) = (if b + 1 = 0 then 0 # incr bs else (b + 1) # bs)"

fun keystream :: "byte list list \<Rightarrow> byte list \<Rightarrow> nat \<Rightarrow> byte list" where
  "keystream rks ctr 0 = []"
| "keystream rks ctr (Suc n) = encryptBlock rks ctr @ keystream rks (rev (incr (rev ctr))) n"

text \<open>A new CTR stream: the block cipher and the counter, which starts at the IV.\<close>

definition NewCTR :: "byte list list \<Rightarrow> byte list \<Rightarrow> byte list list \<times> byte list" where
  "NewCTR blk v = (blk, v)"

text \<open>
  \<^verbatim>\<open>XORKeyStream(dst, src)\<close> on a fresh stream, as the new contents of \<open>dst\<close>:
  \<^verbatim>\<open>dst[i] = src[i] ^ keystream[i]\<close> for every index of \<open>src\<close>.
\<close>

definition XORKeyStream :: "byte list list \<times> byte list \<Rightarrow> byte list \<Rightarrow> byte list \<Rightarrow> byte list" where
  "XORKeyStream x dst src =
     xorBytes src (keystream (fst x) (snd x) ((length src + 15) div 16)) @ drop (length src) dst"

subsection \<open>\<^verbatim>\<open>crypto/rand\<close>\<close>

text \<open>
  The random source is the list of the bytes it will deliver. \<^verbatim>\<open>rand.Read\<close> of \<open>n\<close>
  bytes takes them from its front; it fails (\<open>None\<close>) when the source cannot fill the
  buffer.
\<close>

definition rand_Read :: "nat \<Rightarrow> byte list \<Rightarrow> (byte list \<times> byte list) option" where
  "rand_Read n rnd = (if length rnd < n then None else Some (take n rnd, drop n rnd))"

subsection \<open>The package: errors, constants and the descriptor\<close>

datatype error =
  HashMismatch | UnsupportedVersion | UnsupportedAlgorithm | InvalidKey | InvalidInitVector

text \<open>
  A Go function returns its values or panics. The panics of this package are the one it
  raises itself when the random source fails, and the run-time ones: a nil pointer
  dereference and an index out of range.
\<close>

datatype panic = RandError | NilPointerDereference | IndexOutOfRange

datatype 'a outcome = Returns 'a | Panics panic

definition keyLength :: nat where "keyLength = 32"
definition hashLength :: nat where "hashLength = 32"
definition ivLength :: nat where "ivLength = 16"

definition keyBase64Length :: nat where "keyBase64Length = EncodedLen keyLength"
definition hashBase64Length :: nat where "hashBase64Length = EncodedLen hashLength"
definition ivBase64Length :: nat where "ivBase64Length = EncodedLen ivLength"

record JSONWebKey =
  Key :: string
  Algorithm :: string
  Extractable :: bool
  KeyType :: string
  KeyOps :: "string list"

record EncryptedFileHashes =
  SHA256 :: string

text \<open>The arrays \<^verbatim>\<open>[keyLength]byte\<close> and \<^verbatim>\<open>[ivLength]byte\<close> are lists of that length.\<close>

record decodedKeys =
  key :: "byte list"
  iv :: "byte list"

text \<open>
  The field \<^verbatim>\<open>Key\<close> of \<^verbatim>\<open>EncryptedFile\<close> is \<open>KeyJWK\<close> here, since \<open>Key\<close> names the
  field of \<^verbatim>\<open>JSONWebKey\<close>. The pointer \<^verbatim>\<open>decoded\<close> is \<open>None\<close> when nil.
\<close>

record EncryptedFile =
  KeyJWK :: JSONWebKey
  InitVector :: string
  Hashes :: EncryptedFileHashes
  Version :: string
  decoded :: "decodedKeys option"

subsection \<open>Byte slices\<close>

text \<open>
  A \<^verbatim>\<open>[]byte\<close> argument or result is a reference to a buffer. The heap is the list of
  the buffers allocated so far, a slice is the index of its buffer, and \<^verbatim>\<open>make\<close>
  appends a new zeroed buffer.
\<close>

type_synonym slice = nat
type_synonym heap = "byte list list"

definition make :: "nat \<Rightarrow> heap \<Rightarrow> slice \<times> heap" where
  "make n h = (length h, h @ [replicate n 0])"

subsection \<open>The functions of the package\<close>

text \<open>
  \<^verbatim>\<open>genA256CTR\<close> reads the key, then the first eight bytes of the IV; the other eight
  stay zero. It returns the rest of the random source too.
\<close>

definition genA256CTR :: "byte list \<Rightarrow> (byte list \<times> byte list \<times> byte list) outcome" where
  "genA256CTR rnd =
     (case rand_Read keyLength rnd of
        None \<Rightarrow> Panics RandError
      | Some (k, rnd1) \<Rightarrow>
          (case rand_Read 8 rnd1 of
             None \<Rightarrow> Panics RandError
           | Some (v, rnd2) \<Rightarrow> Returns (k, v @ drop 8 (replicate ivLength 0), rnd2)))"

definition NewEncryptedFile :: "byte list \<Rightarrow> (EncryptedFile \<times> byte list) outcome" where
  "NewEncryptedFile rnd =
     (case genA256CTR rnd of
        Panics p \<Rightarrow> Panics p
      | Returns (k, v, rnd') \<Rightarrow>
          Returns
            (\<lparr>KeyJWK = \<lparr>Key = EncodeToString RawURLEncoding k,
                        Algorithm = ''A256CTR'',
                        Extractable = True,
                        KeyType = ''oct'',
                        KeyOps = [''encrypt'', ''decrypt'']\<rparr>,
              InitVector = EncodeToString RawStdEncoding v,
              Hashes = \<lparr>SHA256 = []\<rparr>,
              Version = ''v2'',
              decoded = Some \<lparr>key = k, iv = v\<rparr>\<rparr>,
             rnd'))"

text \<open>
  \<^verbatim>\<open>decodeKeys\<close> returns an error or nil, and the descriptor as it leaves it. The
  assignment \<^verbatim>\<open>ef.decoded = &decodedKeys{}\<close> comes before the two decodings, so the
  descriptor returned with an error of a decoding has a cache: the zero arrays, with
  the bytes written before the failure.
\<close>

definition decodeKeys :: "EncryptedFile \<Rightarrow> error option outcome \<times> EncryptedFile" where
  "decodeKeys ef =
     (if decoded ef \<noteq> None then (Returns None, ef)
      else if length (Key (KeyJWK ef)) \<noteq> keyBase64Length then (Returns (Some InvalidKey), ef)
      else if length (InitVector ef) \<noteq> ivBase64Length
        then (Returns (Some InvalidInitVector), ef)
      else
        (let d = \<lparr>key = replicate keyLength 0, iv = replicate ivLength 0\<rparr>
         in case Decode RawURLEncoding (key d) (Key (KeyJWK ef)) of
              None \<Rightarrow> (Panics IndexOutOfRange, ef\<lparr>decoded := Some d\<rparr>)
            | Some (k, n, err) \<Rightarrow>
                if err then (Returns (Some InvalidKey), ef\<lparr>decoded := Some (d\<lparr>key := k\<rparr>)\<rparr>)
                else
                  (case Decode RawStdEncoding (iv d) (InitVector ef) of
                     None \<Rightarrow> (Panics IndexOutOfRange, ef\<lparr>decoded := Some (d\<lparr>key := k\<rparr>)\<rparr>)
                   | Some (v, m, err') \<Rightarrow>
                       (Returns (if err' then Some InvalidInitVector else None),
                        ef\<lparr>decoded := Some (d\<lparr>key := k, iv := v\<rparr>)\<rparr>))))"

text \<open>
  \<^verbatim>\<open>xorA256CTR\<close> allocates the result and writes it; the error of \<^verbatim>\<open>aes.NewCipher\<close> is
  dropped, as in the source (a key of 32 bytes gives none).
\<close>

definition xorA256CTR :: "slice \<Rightarrow> byte list \<Rightarrow> byte list \<Rightarrow> heap \<Rightarrow> slice \<times> heap" where
  "xorA256CTR source k v h =
     (let blk = NewCipher k;
          (result, h1) = make (length (h ! source)) h;
          h2 = h1[result := XORKeyStream (NewCTR blk v) (h1 ! result) (h1 ! source)]
      in (result, h2))"

text \<open>
  \<^verbatim>\<open>Encrypt\<close> calls \<^verbatim>\<open>decodeKeys\<close> and drops the error it returns; only a panic of the
  call ends it. Reading \<^verbatim>\<open>ef.decoded.key\<close> through a nil \<^verbatim>\<open>ef.decoded\<close> panics.
\<close>

definition Encrypt :: "EncryptedFile \<Rightarrow> slice \<Rightarrow> heap \<Rightarrow> slice outcome \<times> EncryptedFile \<times> heap" where
  "Encrypt ef plaintext h =
     (case decodeKeys ef of
        (Panics p, ef1) \<Rightarrow> (Panics p, ef1, h)
      | (Returns _, ef1) \<Rightarrow>
          (case decoded ef1 of
             None \<Rightarrow> (Panics NilPointerDereference, ef1, h)
           | Some d \<Rightarrow>
               (case xorA256CTR plaintext (key d) (iv d) h of
                  (ciphertext, h1) \<Rightarrow>
                    (Returns ciphertext,
                     ef1\<lparr>Hashes := (Hashes ef1)
                            \<lparr>SHA256 := EncodeToString RawStdEncoding (Sum256 (h1 ! ciphertext))\<rparr>\<rparr>,
                     h1))))"

definition checkHash :: "EncryptedFile \<Rightarrow> slice \<Rightarrow> heap \<Rightarrow> bool outcome" where
  "checkHash ef ciphertext h =
     (if length (SHA256 (Hashes ef)) \<noteq> hashBase64Length then Returns False
      else
        (case Decode RawStdEncoding (replicate hashLength 0) (SHA256 (Hashes ef)) of
           None \<Rightarrow> Panics IndexOutOfRange
         | Some (hash, n, err) \<Rightarrow>
             if err then Returns False else Returns (hash = Sum256 (h ! ciphertext))))"

definition Decrypt ::
  "EncryptedFile \<Rightarrow> slice \<Rightarrow> heap \<Rightarrow> (error + slice) outcome \<times> EncryptedFile \<times> heap" where
  "Decrypt ef ciphertext h =
     (if Version ef \<noteq> ''v2'' then (Returns (Inl UnsupportedVersion), ef, h)
      else if Algorithm (KeyJWK ef) \<noteq> ''A256CTR''
        then (Returns (Inl UnsupportedAlgorithm), ef, h)
      else
        (case checkHash ef ciphertext h of
           Panics p \<Rightarrow> (Panics p, ef, h)
         | Returns ok \<Rightarrow>
             if \<not> ok then (Returns (Inl HashMismatch), ef, h)
             else
               (case decodeKeys ef of
                  (Panics p, ef1) \<Rightarrow> (Panics p, ef1, h)
                | (Returns (Some err), ef1) \<Rightarrow> (Returns (Inl err), ef1, h)
                | (Returns None, ef1) \<Rightarrow>
                    (case decoded ef1 of
                       None \<Rightarrow> (Panics NilPointerDereference, ef1, h)
                     | Some d \<Rightarrow>
                         (case xorA256CTR ciphertext (key d) (iv d) h of
                            (plaintext, h1) \<Rightarrow> (Returns (Inr plaintext), ef1, h1))))))"

subsection \<open>Example values\<close>

text \<open>
  A random source of forty bytes, the descriptor \<^verbatim>\<open>NewEncryptedFile\<close> makes from it,
  and a heap holding the plaintext \<^verbatim>\<open>"hello"\<close>.
\<close>

definition example_rnd :: "byte list" where
  "example_rnd =
     [0x00, 0x01, 0x02, 0x03, 0x04, 0x05, 0x06, 0x07, 0x08, 0x09, 0x0a, 0x0b, 0x0c, 0x0d, 0x0e, 0x0f,
      0x10, 0x11, 0x12, 0x13, 0x14, 0x15, 0x16, 0x17, 0x18, 0x19, 0x1a, 0x1b, 0x1c, 0x1d, 0x1e, 0x1f,
      0x20, 0x21, 0x22, 0x23, 0x24, 0x25, 0x26, 0x27]"

definition example_keys :: decodedKeys where
  "example_keys =
     \<lparr>key =
        [0x00, 0x01, 0x02, 0x03, 0x04, 0x05, 0x06, 0x07, 0x08, 0x09, 0x0a, 0x0b, 0x0c, 0x0d, 0x0e, 0x0f,
         0x10, 0x11, 0x12, 0x13, 0x14, 0x15, 0x16, 0x17, 0x18, 0x19, 0x1a, 0x1b, 0x1c, 0x1d, 0x1e, 0x1f],
      iv = [0x20, 0x21, 0x22, 0x23, 0x24, 0x25, 0x26, 0x27, 0, 0, 0, 0, 0, 0, 0, 0]\<rparr>"

definition example_ef :: EncryptedFile where
  "example_ef =
     \<lparr>KeyJWK = \<lparr>Key = ''AAECAwQFBgcICQoLDA0ODxAREhMUFRYXGBkaGxwdHh8'',
                Algorithm = ''A256CTR'',
                Extractable = True,
                KeyType = ''oct'',
                KeyOps = [''encrypt'', ''decrypt'']\<rparr>,
      InitVector = ''ICEiIyQlJicAAAAAAAAAAA'',
      Hashes = \<lparr>SHA256 = []\<rparr>,
      Version = ''v2'',
      decoded = Some example_keys\<rparr>"

definition example_heap :: heap where
  "example_heap = [[0x68, 0x65, 0x6c, 0x6c, 0x6f]]"

text \<open>
  A descriptor as it is received: no decoded cache, the key and IV fields as given,
  and the digest of the empty ciphertext (SHA-256 of no bytes, in base64).
\<close>

definition received_ef :: "string \<Rightarrow> string \<Rightarrow> EncryptedFile" where
  "received_ef k v =
     \<lparr>KeyJWK = \<lparr>Key = k,
                Algorithm = ''A256CTR'',
                Extractable = True,
                KeyType = ''oct'',
                KeyOps = [''encrypt'', ''decrypt'']\<rparr>,
      InitVector = v,
      Hashes = \<lparr>SHA256 = ''47DEQpj8HBSa+/TImW+5JCeuQeRkm5NMpJWZG3hSuFU''\<rparr>,
      Version = ''v2'',
      decoded = None\<rparr>"

text \<open>
  A key field of the right length (43) that is not base64, and an IV field that decodes
  to sixteen zero bytes.
\<close>

definition bad_key :: string where
  "bad_key = ''!!!!!!!!!!!!!!!!!!!!!!!!!!!!!!!!!!!!!!!!!!!''"

definition zero_iv :: string where
  "zero_iv = ''AAAAAAAAAAAAAAAAAAAAAA''"

text \<open>The sextet value behind a character of the encoding.\<close>

definition six :: "u32 \<Rightarrow> nat \<Rightarrow> byte" where
  "six val k = ucast (drop_bit k val AND 0x3F)"

subsection \<open>Auxiliary predicates\<close>

text \<open>The words of a key schedule have four bytes each, its round keys sixteen.\<close>

definition words_ok :: "byte list list \<Rightarrow> bool" where
  "words_ok ws = (\<forall>w \<in> set ws. length w = 4)"

definition keys_ok :: "byte list list \<Rightarrow> bool" where
  "keys_ok rks = (\<forall>rk \<in> set rks. length rk = 16)"

section \<open>Properties of the library functions\<close>

subsection \<open>Base64: decoding an encoding gives the bytes back\<close>

lemma and_3F: "(x :: u32) AND 0x3F = take_bit 6 x"
  by (simp add: take_bit_eq_mask mask_eq_exp_minus_1)

lemma val3_byte0: "ucast (drop_bit 16 (val3 b0 b1 b2)) = b0"
  unfolding val3_def
  by (auto simp: bit_eq_iff bit_simps dest: bit_imp_le_length)

lemma val3_byte1: "ucast (drop_bit 8 (val3 b0 b1 b2)) = b1"
  unfolding val3_def
  by (auto simp: bit_eq_iff bit_simps dest: bit_imp_le_length)

lemma val3_byte2: "ucast (val3 b0 b1 b2) = b2"
  unfolding val3_def
  by (auto simp: bit_eq_iff bit_simps dest: bit_imp_le_length)

lemma val3_take: "take_bit 24 (val3 b0 b1 b2) = val3 b0 b1 b2"
  unfolding val3_def
  by (auto simp: bit_eq_iff bit_simps dest: bit_imp_le_length)

lemma bit_val4_six:
  "bit (val4 [six v 18, six v 12, six v 6, six v 0]) n = bit (take_bit 24 v) n"
  unfolding val4_def six_def and_3F
  by (cases "n < 6"; cases "n < 12"; cases "n < 18"; cases "n < 24"; simp add: bit_simps; arith)

lemma val4_six: "val4 [six (val3 b0 b1 b2) 18, six (val3 b0 b1 b2) 12, six (val3 b0 b1 b2) 6, six (val3 b0 b1 b2) 0] = val3 b0 b1 b2"
  using bit_val4_six [of "val3 b0 b1 b2"] by (simp add: bit_eq_iff val3_take)

lemma bit_val4_six3:
  "bit (val4 [six v 18, six v 12, six v 6, 0]) n = (6 \<le> n \<and> bit (take_bit 24 v) n)"
  unfolding val4_def six_def and_3F
  by (cases "n < 6"; cases "n < 12"; cases "n < 18"; cases "n < 24"; simp add: bit_simps; arith)

lemma bit_val4_six2:
  "bit (val4 [six v 18, six v 12, 0, 0]) n = (12 \<le> n \<and> bit (take_bit 24 v) n)"
  unfolding val4_def six_def and_3F
  by (cases "n < 6"; cases "n < 12"; cases "n < 18"; cases "n < 24"; simp add: bit_simps; arith)

lemma val4_six3_byte0:
  "(ucast (drop_bit 16 (val4 [six (val3 b0 b1 b2) 18, six (val3 b0 b1 b2) 12, six (val3 b0 b1 b2) 6, 0])) :: byte) = b0"
proof -
  have "(ucast (drop_bit 16 (val4 [six (val3 b0 b1 b2) 18, six (val3 b0 b1 b2) 12, six (val3 b0 b1 b2) 6, 0])) :: byte)
      = ucast (drop_bit 16 (val3 b0 b1 b2))"
    by (simp add: bit_eq_iff bit_simps bit_val4_six3 val3_take)
  then show ?thesis by (simp add: val3_byte0)
qed

lemma val4_six3_byte1:
  "(ucast (drop_bit 8 (val4 [six (val3 b0 b1 b2) 18, six (val3 b0 b1 b2) 12, six (val3 b0 b1 b2) 6, 0])) :: byte) = b1"
proof -
  have "(ucast (drop_bit 8 (val4 [six (val3 b0 b1 b2) 18, six (val3 b0 b1 b2) 12, six (val3 b0 b1 b2) 6, 0])) :: byte)
      = ucast (drop_bit 8 (val3 b0 b1 b2))"
    by (simp add: bit_eq_iff bit_simps bit_val4_six3 val3_take)
  then show ?thesis by (simp add: val3_byte1)
qed

lemma val4_six2_byte0:
  "(ucast (drop_bit 16 (val4 [six (val3 b0 b1 b2) 18, six (val3 b0 b1 b2) 12, 0, 0])) :: byte) = b0"
proof -
  have "(ucast (drop_bit 16 (val4 [six (val3 b0 b1 b2) 18, six (val3 b0 b1 b2) 12, 0, 0])) :: byte)
      = ucast (drop_bit 16 (val3 b0 b1 b2))"
    by (simp add: bit_eq_iff bit_simps bit_val4_six2 val3_take)
  then show ?thesis by (simp add: val3_byte0)
qed

lemma index_of_nth:
  "distinct xs \<Longrightarrow> i < length xs \<Longrightarrow> index_of (xs ! i) xs k = Some (k + i)"
proof (induction xs arbitrary: i k)
  case Nil
  then show ?case by simp
next
  case (Cons x xs)
  show ?case
  proof (cases i)
    case 0
    then show ?thesis by simp
  next
    case (Suc j)
    with Cons.prems have "xs ! j \<noteq> x" "j < length xs" "distinct xs"
      by auto
    with Cons.IH [of j "Suc k"] Suc show ?thesis by simp
  qed
qed

lemma distinct_encode: "distinct (encode enc)"
  by (cases enc) simp_all

lemma length_encode: "length (encode enc) = 64"
  by (cases enc) simp_all

lemma decodeMap_encode:
  assumes "i < 64"
  shows "decodeMap enc (encode enc ! i) = word_of_nat i"
  using index_of_nth [OF distinct_encode, of i enc 0] assms
  by (simp add: decodeMap_def length_encode)

lemma unat_and_3F: "unat ((x :: u32) AND 0x3F) < 64"
proof -
  have "unat (take_bit 6 x) < 2 ^ 6"
    using take_bit_nat_less_exp [of 6 "unat x"] by (simp add: unsigned_take_bit_eq)
  then show ?thesis by (simp add: and_3F)
qed

lemma decodeMap_sextet: "decodeMap enc (sextet enc val k) = six val k"
  by (simp add: sextet_def six_def decodeMap_encode unat_and_3F)

lemma six_neq_FF: "six val k \<noteq> 0xFF"
proof
  assume "six val k = 0xFF"
  moreover have "\<not> bit (six val k) 6"
    by (simp add: six_def and_3F bit_simps)
  moreover have "bit (0xFF :: byte) 6"
    by simp
  ultimately show False by simp
qed

lemma quantum4:
  "quantum [six (val3 b0 b1 b2) 18, six (val3 b0 b1 b2) 12, six (val3 b0 b1 b2) 6, six (val3 b0 b1 b2) 0] = [b0, b1, b2]"
  by (simp add: quantum_def val4_six val3_byte0 val3_byte1 val3_byte2)

lemma quantum3:
  "quantum [six (val3 b0 b1 b2) 18, six (val3 b0 b1 b2) 12, six (val3 b0 b1 b2) 6] = [b0, b1]"
  by (simp add: quantum_def val4_six3_byte0 val4_six3_byte1)

lemma quantum2:
  "quantum [six (val3 b0 b1 b2) 18, six (val3 b0 b1 b2) 12] = [b0]"
  by (simp add: quantum_def val4_six2_byte0 numeral_2_eq_2)

lemma quantum_Nil: "quantum [] = []"
  by (simp add: quantum_def)

lemma decodeQuanta_EncodeToString:
  "decodeQuanta enc (EncodeToString enc bs) [] = (bs, False)"
  by (induction enc bs rule: EncodeToString.induct)
     (simp_all add: decodeMap_sextet six_neq_FF quantum4 quantum3 quantum2 quantum_Nil)

lemma EncodedLen_add3: "EncodedLen (Suc (Suc (Suc n))) = EncodedLen n + 4"
proof -
  have "Suc (Suc (Suc n)) = n + 3" by simp
  then show ?thesis
    unfolding EncodedLen_def by (simp only: div_add_self2 mod_add_self2) simp
qed

lemma EncodedLen_small:
  "EncodedLen 0 = 0" "EncodedLen (Suc 0) = 2" "EncodedLen (Suc (Suc 0)) = 3"
  by code_simp+

lemma length_EncodeToString: "length (EncodeToString enc bs) = EncodedLen (length bs)"
  by (induction enc bs rule: EncodeToString.induct)
     (simp_all add: EncodedLen_add3 EncodedLen_small)

lemma Decode_EncodeToString:
  "Decode enc (replicate (length bs) 0) (EncodeToString enc bs) = Some (bs, length bs, False)"
  by (simp add: Decode_def decodeQuanta_EncodeToString)

lemma length_quantum: "length (quantum dbuf) = min 3 (length dbuf - 1)"
  by (simp add: quantum_def)

lemma decodeQuanta_bound:
  "4 * length (fst (decodeQuanta enc src dbuf)) \<le> 3 * (length src + length dbuf)"
proof (induction enc src dbuf rule: decodeQuanta.induct)
  case (1 enc dbuf)
  then show ?case by (simp add: length_quantum min_def) arith
next
  case (2 enc c cs dbuf)
  show ?case
  proof (cases "decodeMap enc c \<noteq> 0xFF")
    case valid: True
    show ?thesis
    proof (cases "length dbuf = 3")
      case True
      with valid 2(1) show ?thesis
        by (auto simp: length_quantum split: prod.splits)
    next
      case False
      with valid 2(2) show ?thesis by simp
    qed
  next
    case invalid: False
    show ?thesis
    proof (cases "c = CHR 0x0A \<or> c = CHR 0x0D")
      case True
      with invalid 2(3) have "4 * length (fst (decodeQuanta enc cs dbuf)) \<le> 3 * (length cs + length dbuf)"
        by simp
      moreover have "decodeQuanta enc (c # cs) dbuf = decodeQuanta enc cs dbuf"
        using invalid True by simp
      ultimately show ?thesis by simp
    next
      case False
      with invalid show ?thesis by simp
    qed
  qed
qed

lemma Decode_length:
  "Decode enc dst src = Some (dst', n, err) \<Longrightarrow> length dst' = length dst \<and> n \<le> length dst"
  by (auto simp: Decode_def split: prod.splits if_splits)

lemma EncodedLen_bound: "3 * EncodedLen n < 4 * n + 4"
  unfolding EncodedLen_def by arith

lemma Decode_no_panic:
  assumes "length src = EncodedLen (length dst)"
  shows "Decode enc dst src \<noteq> None"
proof -
  have "4 * length (fst (decodeQuanta enc src [])) \<le> 3 * EncodedLen (length dst)"
    using decodeQuanta_bound [of enc src "[]"] assms by simp
  with EncodedLen_bound [of "length dst"]
  have "length (fst (decodeQuanta enc src [])) \<le> length dst"
    by linarith
  then show ?thesis
    by (auto simp: Decode_def split: prod.splits)
qed

subsection \<open>SHA-256 and AES-256: the lengths of their results\<close>

lemma length_rounds: "length st = 8 \<Longrightarrow> length (rounds ks ws st) = 8"
  by (induction ks ws st rule: rounds.induct) (simp_all add: Let_def)

lemma length_block: "length hs = 8 \<Longrightarrow> length (block hs p) = 8"
  by (simp add: block_def length_rounds)

lemma length_blocks: "length hs = 8 \<Longrightarrow> length (blocks n m hs) = 8"
  by (induction n m hs rule: blocks.induct) (simp_all add: length_block)

lemma length_concat_u32_bytes: "length (concat (map u32_bytes ws)) = 4 * length ws"
  by (induction ws) (simp_all add: u32_bytes_def)

lemma length_Sum256: "length (Sum256 m) = 32"
  by (simp add: Sum256_def length_concat_u32_bytes length_blocks sha256_init_def)


lemma length_xorBytes: "length (xorBytes xs ys) = min (length xs) (length ys)"
  by (simp add: xorBytes_def)

lemma length_xor_chain: "length (xor_chain t ws) = length ws"
  by (induction t ws rule: xor_chain.induct) simp_all

lemma words_ok_xor_chain:
  "length t = 4 \<Longrightarrow> words_ok ws \<Longrightarrow> words_ok (xor_chain t ws)"
proof (induction t ws rule: xor_chain.induct)
  case (1 t)
  then show ?case by (simp add: words_ok_def)
next
  case (2 t w ws)
  from 2(2,3) have len: "length (xorBytes w t) = 4"
    by (simp add: words_ok_def length_xorBytes)
  moreover from 2(3) have "words_ok ws"
    by (simp add: words_ok_def)
  ultimately have "words_ok (xor_chain (xorBytes w t) ws)"
    by (rule 2(1))
  with len show ?case by (simp add: words_ok_def)
qed

lemma words_ok_take: "words_ok ws \<Longrightarrow> words_ok (take n ws)"
  by (auto simp: words_ok_def dest: in_set_takeD)

lemma words_ok_drop: "words_ok ws \<Longrightarrow> words_ok (drop n ws)"
  by (auto simp: words_ok_def dest: in_set_dropD)

lemma words_ok_append: "words_ok (xs @ ys) = (words_ok xs \<and> words_ok ys)"
  by (auto simp: words_ok_def)

lemma words_ok_nth: "words_ok ws \<Longrightarrow> i < length ws \<Longrightarrow> length (ws ! i) = 4"
  by (simp add: words_ok_def)

lemma expandGroup_ok:
  assumes "length g = 8" "words_ok g"
  shows "length (expandGroup rc g) = 8 \<and> words_ok (expandGroup rc g)"
proof -
  let ?a = "xor_chain (xorBytes (SubWord (RotWord (g ! 7))) [rc, 0, 0, 0]) (take 4 g)"
  have g7: "length (g ! 7) = 4"
    using assms by (simp add: words_ok_nth)
  have t: "length (xorBytes (SubWord (RotWord (g ! 7))) [rc, 0, 0, 0]) = 4"
    using g7 by (simp add: length_xorBytes SubWord_def RotWord_def)
  have a_len: "length ?a = 4"
    using assms by (simp add: length_xor_chain)
  have a_ok: "words_ok ?a"
    using t assms by (simp add: words_ok_xor_chain words_ok_take)
  have a3: "length (SubWord (?a ! 3)) = 4"
    using a_len a_ok by (simp add: SubWord_def words_ok_nth)
  have b_ok: "words_ok (xor_chain (SubWord (?a ! 3)) (drop 4 g))"
    using a3 assms by (simp add: words_ok_xor_chain words_ok_drop)
  show ?thesis
    using a_len a_ok b_ok assms
    by (simp add: expandGroup_def Let_def length_xor_chain words_ok_append)
qed

lemma expand_ok:
  "length g = 8 \<Longrightarrow> words_ok g \<Longrightarrow>
   length (expand rcs g) = 8 * length rcs \<and> words_ok (expand rcs g)"
proof (induction rcs g rule: expand.induct)
  case (1 g)
  then show ?case by (simp add: words_ok_def)
next
  case (2 rc rcs g)
  then show ?case
    using expandGroup_ok [of g rc] by (simp add: words_ok_append)
qed

lemma words4_ok: "words_ok (words4 k)"
  by (induction k rule: words4.induct) (simp_all add: words_ok_def)

lemma length_words4: "length (words4 k) = length k div 4"
  by (induction k rule: words4.induct) simp_all

lemma roundKeys_ok: "words_ok ws \<Longrightarrow> keys_ok (roundKeys ws) \<and> length (roundKeys ws) = length ws div 4"
  by (induction ws rule: roundKeys.induct) (simp_all add: words_ok_def keys_ok_def)

lemma NewCipher_ok:
  assumes "length k = 32"
  shows "length (NewCipher k) = 15 \<and> keys_ok (NewCipher k)"
proof -
  let ?ws = "words4 k @ expand rcon (words4 k)"
  have w: "length (words4 k) = 8" "words_ok (words4 k)"
    using assms by (simp_all add: length_words4 words4_ok)
  then have "length (expand rcon (words4 k)) = 56" "words_ok (expand rcon (words4 k))"
    using expand_ok [of "words4 k" rcon] by (simp_all add: rcon_def)
  with w have "length ?ws = 64" "words_ok ?ws"
    by (simp_all add: words_ok_append)
  then have "length (roundKeys ?ws) = 16" "keys_ok (roundKeys ?ws)"
    using roundKeys_ok [of ?ws] by simp_all
  then show ?thesis
    by (auto simp: NewCipher_def keys_ok_def dest: in_set_takeD)
qed

lemma length_ShiftRows: "length (ShiftRows st) = 16"
  by (simp add: ShiftRows_def)

lemma aes_rounds_length:
  "rks \<noteq> [] \<Longrightarrow> keys_ok rks \<Longrightarrow> length (aes_rounds rks st) = 16"
proof (induction rks st rule: aes_rounds.induct)
  case (1 st)
  then show ?case by simp
next
  case (2 rk st)
  then show ?case
    by (simp add: AddRoundKey_def length_xorBytes length_ShiftRows keys_ok_def)
next
  case (3 rk v va st)
  then show ?case by (simp add: keys_ok_def)
qed

lemma length_encryptBlock:
  assumes "length k = 32"
  shows "length (encryptBlock (NewCipher k) blk) = 16"
proof -
  obtain rk rks where rks: "NewCipher k = rk # rks" "length rks = 14"
    using NewCipher_ok [OF assms] by (cases "NewCipher k") auto
  then have "rks \<noteq> []" "keys_ok rks"
    using NewCipher_ok [OF assms] by (auto simp: keys_ok_def)
  then show ?thesis
    by (simp add: encryptBlock_def rks aes_rounds_length)
qed

lemma length_keystream:
  "length k = 32 \<Longrightarrow> length (keystream (NewCipher k) ctr n) = 16 * n"
  by (induction n arbitrary: ctr) (simp_all add: length_encryptBlock)

lemma xorBytes_twice:
  "length xs \<le> length ks \<Longrightarrow> xorBytes (xorBytes xs ks) ks = xs"
proof (induction xs arbitrary: ks)
  case Nil
  then show ?case by (simp add: xorBytes_def)
next
  case (Cons x xs)
  then obtain y ys where "ks = y # ys" by (cases ks) auto
  with Cons show ?case by (simp add: xorBytes_def xor.assoc)
qed

lemma XORKeyStream_fresh:
  assumes "length k = 32"
  shows "XORKeyStream (NewCTR (NewCipher k) v) (replicate (length src) 0) src
         = xorBytes src (keystream (NewCipher k) v ((length src + 15) div 16))
       \<and> length (XORKeyStream (NewCTR (NewCipher k) v) (replicate (length src) 0) src) = length src"
proof -
  have "length src \<le> 16 * ((length src + 15) div 16)" by arith
  then show ?thesis
    using assms by (simp add: XORKeyStream_def NewCTR_def length_xorBytes length_keystream)
qed

section \<open>The functions of the package, step by step\<close>

lemma base64_lengths:
  "keyBase64Length = 43" "hashBase64Length = 43" "ivBase64Length = 22"
  by (simp_all add: keyBase64Length_def hashBase64Length_def ivBase64Length_def
      keyLength_def hashLength_def ivLength_def EncodedLen_def)

lemma xorA256CTR_eq:
  "xorA256CTR source k v h =
     (length h,
      h @ [XORKeyStream (NewCTR (NewCipher k) v) (replicate (length (h ! source)) 0)
             ((h @ [replicate (length (h ! source)) 0]) ! source)])"
  by (simp add: xorA256CTR_def make_def Let_def)

lemma xorA256CTR_alloc:
  "source < length h \<Longrightarrow>
   xorA256CTR source k v h =
     (length h,
      h @ [XORKeyStream (NewCTR (NewCipher k) v) (replicate (length (h ! source)) 0) (h ! source)])"
  by (simp add: xorA256CTR_eq nth_append)

lemma decodeKeys_cached: "decoded ef = Some d \<Longrightarrow> decodeKeys ef = (Returns None, ef)"
  by (simp add: decodeKeys_def)

lemma decodeKeys_no_panic: "fst (decodeKeys ef) \<noteq> Panics p"
proof -
  have k: "Decode RawURLEncoding (replicate keyLength 0) (Key (KeyJWK ef)) \<noteq> None"
    if "length (Key (KeyJWK ef)) = keyBase64Length"
    using that by (intro Decode_no_panic) (simp add: keyBase64Length_def)
  have v: "Decode RawStdEncoding (replicate ivLength 0) (InitVector ef) \<noteq> None"
    if "length (InitVector ef) = ivBase64Length"
    using that by (intro Decode_no_panic) (simp add: ivBase64Length_def)
  show ?thesis
    using k v by (auto simp: decodeKeys_def Let_def split: option.splits prod.splits)
qed

lemma decodeKeys_fields:
  "KeyJWK (snd (decodeKeys ef)) = KeyJWK ef"
  "InitVector (snd (decodeKeys ef)) = InitVector ef"
  "Hashes (snd (decodeKeys ef)) = Hashes ef"
  "Version (snd (decodeKeys ef)) = Version ef"
  by (simp_all add: decodeKeys_def Let_def split: option.splits prod.splits)

lemma decodeKeys_key_length:
  assumes "decoded ef = None" "decoded (snd (decodeKeys ef)) = Some d"
  shows "length (key d) = keyLength \<and> length (iv d) = ivLength"
  using assms
  by (auto simp: decodeKeys_def Let_def split: option.splits prod.splits if_splits
           dest!: Decode_length)

lemma checkHash_no_panic: "checkHash ef c h \<noteq> Panics p"
proof -
  have "Decode RawStdEncoding (replicate hashLength 0) (SHA256 (Hashes ef)) \<noteq> None"
    if "length (SHA256 (Hashes ef)) = hashBase64Length"
    using that by (intro Decode_no_panic) (simp add: hashBase64Length_def)
  then show ?thesis
    by (auto simp: checkHash_def split: option.splits prod.splits)
qed

lemma checkHash_encoded:
  assumes "SHA256 (Hashes ef) = EncodeToString RawStdEncoding (Sum256 (h ! c))"
  shows "checkHash ef c h = Returns True"
  using assms Decode_EncodeToString [of RawStdEncoding "Sum256 (h ! c)"]
  by (simp add: checkHash_def length_EncodeToString length_Sum256 hashBase64Length_def
      hashLength_def)

lemma Encrypt_cached:
  assumes "decoded ef = Some d" "plaintext < length h"
  shows "Encrypt ef plaintext h =
    (Returns (length h),
     ef\<lparr>Hashes := (Hashes ef)\<lparr>SHA256 := EncodeToString RawStdEncoding
        (Sum256 (XORKeyStream (NewCTR (NewCipher (key d)) (iv d))
           (replicate (length (h ! plaintext)) 0) (h ! plaintext)))\<rparr>\<rparr>,
     h @ [XORKeyStream (NewCTR (NewCipher (key d)) (iv d))
            (replicate (length (h ! plaintext)) 0) (h ! plaintext)])"
  using assms by (simp add: Encrypt_def decodeKeys_cached xorA256CTR_alloc)

lemma Decrypt_cached:
  assumes "decoded ef = Some d" "ciphertext < length h" "Version ef = ''v2''"
    "Algorithm (KeyJWK ef) = ''A256CTR''" "checkHash ef ciphertext h = Returns True"
  shows "Decrypt ef ciphertext h =
    (Returns (Inr (length h)), ef,
     h @ [XORKeyStream (NewCTR (NewCipher (key d)) (iv d))
            (replicate (length (h ! ciphertext)) 0) (h ! ciphertext)])"
  using assms by (simp add: Decrypt_def decodeKeys_cached xorA256CTR_alloc)

lemma rand_Read_Some:
  "rand_Read n rnd = Some (bs, rest) \<longleftrightarrow> n \<le> length rnd \<and> bs = take n rnd \<and> rest = drop n rnd"
  by (auto simp: rand_Read_def)

lemma NewEncryptedFile_Returns:
  "NewEncryptedFile rnd = Returns (ef, rnd') \<longleftrightarrow>
     40 \<le> length rnd \<and> rnd' = drop 40 rnd \<and>
     ef = \<lparr>KeyJWK = \<lparr>Key = EncodeToString RawURLEncoding (take 32 rnd),
                       Algorithm = ''A256CTR'', Extractable = True, KeyType = ''oct'',
                       KeyOps = [''encrypt'', ''decrypt'']\<rparr>,
             InitVector = EncodeToString RawStdEncoding (take 8 (drop 32 rnd) @ replicate 8 0),
             Hashes = \<lparr>SHA256 = []\<rparr>,
             Version = ''v2'',
             decoded = Some \<lparr>key = take 32 rnd, iv = take 8 (drop 32 rnd) @ replicate 8 0\<rparr>\<rparr>"
  by (auto simp: NewEncryptedFile_def genA256CTR_def rand_Read_def keyLength_def ivLength_def
           split: option.splits prod.splits outcome.splits)

lemma NewEncryptedFile_example: "NewEncryptedFile example_rnd = Returns (example_ef, [])"
  by code_simp

lemma XORKeyStream_twice:
  assumes "length k = 32"
  shows "XORKeyStream (NewCTR (NewCipher k) v)
           (replicate (length (XORKeyStream (NewCTR (NewCipher k) v) (replicate (length src) 0) src)) 0)
           (XORKeyStream (NewCTR (NewCipher k) v) (replicate (length src) 0) src) = src"
proof -
  let ?ks = "keystream (NewCipher k) v ((length src + 15) div 16)"
  have len: "length src \<le> length ?ks"
    using assms by (simp add: length_keystream)
  have c: "XORKeyStream (NewCTR (NewCipher k) v) (replicate (length src) 0) src = xorBytes src ?ks"
    using XORKeyStream_fresh [OF assms] by simp
  have "length (xorBytes src ?ks) = length src"
    using len by (simp add: length_xorBytes)
  then have "XORKeyStream (NewCTR (NewCipher k) v) (replicate (length (xorBytes src ?ks)) 0)
               (xorBytes src ?ks) = xorBytes (xorBytes src ?ks) ?ks"
    using XORKeyStream_fresh [OF assms, of v "xorBytes src ?ks"] by simp
  with c len show ?thesis
    by (simp add: xorBytes_twice)
qed

section \<open>The claims\<close>

text \<open>
  In the theorems below a freshly created descriptor is one that \<^verbatim>\<open>NewEncryptedFile\<close>
  returned, from any random source that did not fail, and a byte sequence passed to
  \<^verbatim>\<open>Encrypt\<close> or \<^verbatim>\<open>Decrypt\<close> is a slice of the heap.
\<close>

subsection \<open>C1: round trip\<close>

text \<open>
  Claim C1. For every plaintext, the empty one too, on a freshly created descriptor:
  \<^verbatim>\<open>Encrypt\<close> returns a ciphertext, \<^verbatim>\<open>Decrypt\<close> of that ciphertext with the descriptor
  as \<^verbatim>\<open>Encrypt\<close> left it succeeds, and the bytes it returns are the plaintext.
\<close>

theorem Decrypt_Encrypt_roundtrip:
  assumes "NewEncryptedFile rnd = Returns (ef, rnd')" and "plaintext < length h"
  shows "\<exists>ciphertext ef1 h1 result ef2 h2.
           Encrypt ef plaintext h = (Returns ciphertext, ef1, h1) \<and>
           Decrypt ef1 ciphertext h1 = (Returns (Inr result), ef2, h2) \<and>
           h2 ! result = h ! plaintext"
proof -
  define d where "d = \<lparr>key = take 32 rnd, iv = take 8 (drop 32 rnd) @ replicate 8 0\<rparr>"
  have ef: "decoded ef = Some d" "Version ef = ''v2''" "Algorithm (KeyJWK ef) = ''A256CTR''"
    and k: "length (key d) = 32"
    using assms(1) unfolding NewEncryptedFile_Returns d_def by simp_all
  define C where "C = XORKeyStream (NewCTR (NewCipher (key d)) (iv d))
                        (replicate (length (h ! plaintext)) 0) (h ! plaintext)"
  define ef1 where "ef1 = ef\<lparr>Hashes := (Hashes ef)\<lparr>SHA256 := EncodeToString RawStdEncoding (Sum256 C)\<rparr>\<rparr>"
  have enc: "Encrypt ef plaintext h = (Returns (length h), ef1, h @ [C])"
    using Encrypt_cached [OF ef(1) assms(2)] by (simp add: C_def ef1_def)
  have ef1: "decoded ef1 = Some d" "Version ef1 = ''v2''" "Algorithm (KeyJWK ef1) = ''A256CTR''"
    using ef by (simp_all add: ef1_def)
  have hash: "checkHash ef1 (length h) (h @ [C]) = Returns True"
    by (rule checkHash_encoded) (simp add: ef1_def)
  have dec: "Decrypt ef1 (length h) (h @ [C]) =
     (Returns (Inr (length (h @ [C]))), ef1,
      (h @ [C]) @ [XORKeyStream (NewCTR (NewCipher (key d)) (iv d)) (replicate (length C) 0) C])"
    using Decrypt_cached [OF ef1(1) _ ef1(2,3) hash] by simp
  have "XORKeyStream (NewCTR (NewCipher (key d)) (iv d)) (replicate (length C) 0) C = h ! plaintext"
    unfolding C_def by (rule XORKeyStream_twice [OF k])
  then have "((h @ [C]) @ [XORKeyStream (NewCTR (NewCipher (key d)) (iv d)) (replicate (length C) 0) C])
               ! length (h @ [C]) = h ! plaintext"
    by (simp only: nth_append_length)
  with enc dec show ?thesis by blast
qed

theorem Decrypt_Encrypt_roundtrip_witness:
  "NewEncryptedFile example_rnd = Returns (example_ef, []) \<and> (0 :: nat) < length example_heap \<and>
   (\<exists>ciphertext ef1 h1 result ef2 h2.
      Encrypt example_ef 0 example_heap = (Returns ciphertext, ef1, h1) \<and>
      Decrypt ef1 ciphertext h1 = (Returns (Inr result), ef2, h2) \<and>
      h2 ! result = example_heap ! 0)"
proof -
  have len: "(0 :: nat) < length example_heap"
    by (simp add: example_heap_def)
  from Decrypt_Encrypt_roundtrip [OF NewEncryptedFile_example len] NewEncryptedFile_example len
  show ?thesis by simp
qed

subsection \<open>C6: the IV of a fresh descriptor\<close>

text \<open>
  Claim C6. For every freshly created descriptor, whatever the random bytes, the decoded
  IV has sixteen bytes, the first eight the random bytes drawn after the key and the last
  eight zero; the IV field is the unpadded standard base64 encoding of those sixteen
  bytes, and decoding the field gives them back.
\<close>

theorem NewEncryptedFile_iv:
  assumes "NewEncryptedFile rnd = Returns (ef, rnd')"
  shows "\<exists>d. decoded ef = Some d \<and> length (iv d) = 16 \<and>
             take 8 (iv d) = take 8 (drop 32 rnd) \<and> drop 8 (iv d) = replicate 8 0 \<and>
             InitVector ef = EncodeToString RawStdEncoding (iv d) \<and>
             Decode RawStdEncoding (replicate ivLength 0) (InitVector ef) = Some (iv d, 16, False)"
proof -
  define d where "d = \<lparr>key = take 32 rnd, iv = take 8 (drop 32 rnd) @ replicate 8 0\<rparr>"
  have rnd: "40 \<le> length rnd" and ef: "decoded ef = Some d"
    and v: "InitVector ef = EncodeToString RawStdEncoding (iv d)"
    using assms unfolding NewEncryptedFile_Returns d_def by simp_all
  have len: "length (iv d) = 16"
    using rnd by (simp add: d_def)
  have "take 8 (iv d) = take 8 (drop 32 rnd)" "drop 8 (iv d) = replicate 8 0"
    using rnd by (simp_all add: d_def)
  moreover have "Decode RawStdEncoding (replicate ivLength 0) (InitVector ef) = Some (iv d, 16, False)"
    using Decode_EncodeToString [of RawStdEncoding "iv d"] len v by (simp add: ivLength_def)
  ultimately show ?thesis
    using ef v len by blast
qed

theorem NewEncryptedFile_iv_witness:
  "NewEncryptedFile example_rnd = Returns (example_ef, []) \<and>
   (\<exists>d. decoded example_ef = Some d \<and> length (iv d) = 16 \<and>
        take 8 (iv d) = take 8 (drop 32 example_rnd) \<and> drop 8 (iv d) = replicate 8 0 \<and>
        InitVector example_ef = EncodeToString RawStdEncoding (iv d) \<and>
        Decode RawStdEncoding (replicate ivLength 0) (InitVector example_ef) = Some (iv d, 16, False))"
  using NewEncryptedFile_iv [OF NewEncryptedFile_example] NewEncryptedFile_example by simp

subsection \<open>C9: the fields of a fresh descriptor\<close>

text \<open>
  Claim C9. Every descriptor returned by \<^verbatim>\<open>NewEncryptedFile\<close> has version \<^verbatim>\<open>"v2"\<close>,
  algorithm \<^verbatim>\<open>"A256CTR"\<close>, extractable true, key type \<^verbatim>\<open>"oct"\<close>, key operations
  \<^verbatim>\<open>["encrypt", "decrypt"]\<close>, an empty digest, a key field that is the unpadded URL-safe
  base64 encoding of the 32 key bytes drawn, and a decoded cache that holds the key and
  the IV: it is the cache that \<^verbatim>\<open>decodeKeys\<close> computes from the fields.
\<close>

theorem NewEncryptedFile_fields:
  assumes "NewEncryptedFile rnd = Returns (ef, rnd')"
  shows "Version ef = ''v2'' \<and> Algorithm (KeyJWK ef) = ''A256CTR'' \<and> Extractable (KeyJWK ef) \<and>
         KeyType (KeyJWK ef) = ''oct'' \<and> KeyOps (KeyJWK ef) = [''encrypt'', ''decrypt''] \<and>
         SHA256 (Hashes ef) = [] \<and>
         length (take 32 rnd) = 32 \<and>
         Key (KeyJWK ef) = EncodeToString RawURLEncoding (take 32 rnd) \<and>
         decoded ef = Some \<lparr>key = take 32 rnd, iv = take 8 (drop 32 rnd) @ replicate 8 0\<rparr> \<and>
         decodeKeys (ef\<lparr>decoded := None\<rparr>) = (Returns None, ef)"
proof -
  define k where "k = take 32 rnd"
  define v where "v = take 8 (drop 32 rnd) @ replicate 8 0"
  have rnd: "40 \<le> length rnd"
    and ef: "ef = \<lparr>KeyJWK = \<lparr>Key = EncodeToString RawURLEncoding k,
                       Algorithm = ''A256CTR'', Extractable = True, KeyType = ''oct'',
                       KeyOps = [''encrypt'', ''decrypt'']\<rparr>,
             InitVector = EncodeToString RawStdEncoding v,
             Hashes = \<lparr>SHA256 = []\<rparr>,
             Version = ''v2'',
             decoded = Some \<lparr>key = k, iv = v\<rparr>\<rparr>"
    using assms unfolding NewEncryptedFile_Returns k_def v_def by simp_all
  have len: "length k = 32" "length v = 16"
    using rnd by (simp_all add: k_def v_def)
  have "decodeKeys (ef\<lparr>decoded := None\<rparr>) = (Returns None, ef)"
    using Decode_EncodeToString [of RawURLEncoding k] Decode_EncodeToString [of RawStdEncoding v] len
    by (simp add: ef decodeKeys_def keyBase64Length_def ivBase64Length_def keyLength_def
        ivLength_def length_EncodeToString)
  then show ?thesis
    using len by (simp add: ef k_def v_def)
qed

theorem NewEncryptedFile_fields_witness:
  "NewEncryptedFile example_rnd = Returns (example_ef, []) \<and>
   Version example_ef = ''v2'' \<and> Algorithm (KeyJWK example_ef) = ''A256CTR'' \<and>
   Extractable (KeyJWK example_ef) \<and> KeyType (KeyJWK example_ef) = ''oct'' \<and>
   KeyOps (KeyJWK example_ef) = [''encrypt'', ''decrypt''] \<and> SHA256 (Hashes example_ef) = [] \<and>
   Key (KeyJWK example_ef) = EncodeToString RawURLEncoding (take 32 example_rnd) \<and>
   decodeKeys (example_ef\<lparr>decoded := None\<rparr>) = (Returns None, example_ef)"
  using NewEncryptedFile_fields [OF NewEncryptedFile_example] NewEncryptedFile_example by simp

end
